theory Spec2Isabelle
  imports Complex_Main "HOL-Library.AList"
begin

section \<open>JavaScript values\<close>

text \<open>
  The oracle's answer is parsed with \<^verbatim>\<open>JSON.parse\<close> and handled as \<^verbatim>\<open>any\<close>, so the
  handlers work on untyped values. A number is modelled as an exact real (the rounding of
  IEEE doubles is not modelled), a string as its list of bytes, an object as the list of
  its own properties in insertion order.
\<close>

datatype js =
    JUndefined
  | JNull
  | JBool bool
  | JNum real
  | JStr string
  | JArr "js list"
  | JObj "(string \<times> js) list"

datatype error = TypeError | OracleError string

text \<open>
  Truthiness, as \<^verbatim>\<open>if (v)\<close> and \<^verbatim>\<open>a || b\<close> test it: the falsy values are undefined, null,
  false, 0 and the empty string.
\<close>

fun truthy :: "js \<Rightarrow> bool" where
  "truthy JUndefined = False"
| "truthy JNull = False"
| "truthy (JBool b) = b"
| "truthy (JNum x) = (x \<noteq> 0)"
| "truthy (JStr s) = (s \<noteq> [])"
| "truthy (JArr xs) = True"
| "truthy (JObj ps) = True"

text \<open>The decimal rendering of an array index, the property name of an element.\<close>

fun index_key :: "nat \<Rightarrow> string" where
  "index_key n =
     (if n < 10 then [char_of (48 + n)]
      else index_key (n div 10) @ [char_of (48 + n mod 10)])"

definition indexed :: "js list \<Rightarrow> (string \<times> js) list" where
  "indexed xs = zip (map index_key [0..<length xs]) xs"

text \<open>
  The own enumerable properties of a value, as the spread \<^verbatim>\<open>{...v}\<close> copies them:
  those of an object, the elements of an array, the units of a string, and none for
  undefined, null, a boolean or a number.
\<close>

fun spread_props :: "js \<Rightarrow> (string \<times> js) list" where
  "spread_props (JObj ps) = ps"
| "spread_props (JArr xs) = indexed xs"
| "spread_props (JStr s) = indexed (map (\<lambda>c. JStr [c]) s)"
| "spread_props v = []"

text \<open>
  Member access \<^verbatim>\<open>v.k\<close>. Reading a property of undefined or null throws a TypeError; a
  missing property reads as undefined. Members inherited from a prototype are not
  modelled: the handlers read none of those names.
\<close>

fun get_prop :: "js \<Rightarrow> string \<Rightarrow> error + js" where
  "get_prop JUndefined k = Inl TypeError"
| "get_prop JNull k = Inl TypeError"
| "get_prop (JObj ps) k = Inr (case map_of ps k of None \<Rightarrow> JUndefined | Some v \<Rightarrow> v)"
| "get_prop (JArr xs) k =
     Inr (if k = ''length'' then JNum (of_nat (length xs))
          else case map_of (indexed xs) k of None \<Rightarrow> JUndefined | Some v \<Rightarrow> v)"
| "get_prop (JStr s) k =
     Inr (if k = ''length'' then JNum (of_nat (length s))
          else case map_of (indexed (map (\<lambda>c. JStr [c]) s)) k of
                 None \<Rightarrow> JUndefined | Some v \<Rightarrow> v)"
| "get_prop v k = Inr JUndefined"

section \<open>JSON.parse\<close>

text \<open>
  \<^verbatim>\<open>JSON.parse\<close> belongs to the language, not to the repository; it is modelled after the
  JSON grammar (ECMA-404) by recursive descent. The result is \<open>None\<close> where
  \<^verbatim>\<open>JSON.parse\<close> throws a SyntaxError. A repeated key keeps its first position and its
  last value. The recursion runs on fuel: \<open>2 * length s + 2\<close> for the text \<open>s\<close>, which is
  enough (\<open>JSON_parse_fuel\<close> below).
\<close>

definition is_ws :: "char \<Rightarrow> bool" where
  "is_ws c = (c = CHR '' '' \<or> c = CHR 0x09 \<or> c = CHR 0x0A \<or> c = CHR 0x0D)"

definition skip_ws :: "string \<Rightarrow> string" where
  "skip_ws cs = dropWhile is_ws cs"

definition is_digit :: "char \<Rightarrow> bool" where
  "is_digit c = (48 \<le> (of_char c :: nat) \<and> (of_char c :: nat) \<le> 57)"

definition digits_val :: "string \<Rightarrow> nat" where
  "digits_val ds = foldl (\<lambda>n c. 10 * n + (of_char c - 48)) 0 ds"

definition hex_val :: "char \<Rightarrow> nat option" where
  "hex_val c =
     (let n = (of_char c :: nat) in
      if 48 \<le> n \<and> n \<le> 57 then Some (n - 48)
      else if 65 \<le> n \<and> n \<le> 70 then Some (n - 55)
      else if 97 \<le> n \<and> n \<le> 102 then Some (n - 87)
      else None)"

text \<open>The bytes of a \<^verbatim>\<open>\uXXXX\<close> escape: the UTF-8 encoding of the code unit.\<close>

definition unit_bytes :: "nat \<Rightarrow> string" where
  "unit_bytes n =
     (if n < 128 then [char_of n]
      else if n < 2048 then [char_of (192 + n div 64), char_of (128 + n mod 64)]
      else [char_of (224 + n div 4096), char_of (128 + (n div 64) mod 64),
            char_of (128 + n mod 64)])"

text \<open>The characters of a string literal after its opening quote, up to the closing one.\<close>

fun parse_chars :: "string \<Rightarrow> string \<Rightarrow> (string \<times> string) option" where
  "parse_chars [] acc = None"
| "parse_chars (c # cs) acc =
     (if c = CHR 0x22 then Some (acc, cs)
      else if c = CHR 0x5C then
        (case cs of
           [] \<Rightarrow> None
         | e # r \<Rightarrow>
             if e = CHR 0x22 \<or> e = CHR 0x5C \<or> e = CHR ''/'' then parse_chars r (acc @ [e])
             else if e = CHR ''b'' then parse_chars r (acc @ [CHR 0x08])
             else if e = CHR ''f'' then parse_chars r (acc @ [CHR 0x0C])
             else if e = CHR ''n'' then parse_chars r (acc @ [CHR 0x0A])
             else if e = CHR ''r'' then parse_chars r (acc @ [CHR 0x0D])
             else if e = CHR ''t'' then parse_chars r (acc @ [CHR 0x09])
             else if e = CHR ''u'' then
               (case r of
                  h1 # h2 # h3 # h4 # r' \<Rightarrow>
                    (case (hex_val h1, hex_val h2, hex_val h3, hex_val h4) of
                       (Some a, Some b, Some c', Some d) \<Rightarrow>
                         parse_chars r' (acc @ unit_bytes (4096 * a + 256 * b + 16 * c' + d))
                     | _ \<Rightarrow> None)
                | _ \<Rightarrow> None)
             else None)
      else if (of_char c :: nat) < 32 then None
      else parse_chars cs (acc @ [c]))"

text \<open>
  A number: an optional minus, an integer part without a leading zero, an optional
  fraction, an optional exponent.
\<close>

definition parse_fraction :: "string \<Rightarrow> (string \<times> string) option" where
  "parse_fraction cs =
     (case cs of
        [] \<Rightarrow> Some ([], cs)
      | c # r \<Rightarrow>
          if c = CHR ''.'' then
            (if takeWhile is_digit r = [] then None
             else Some (takeWhile is_digit r, dropWhile is_digit r))
          else Some ([], cs))"

definition parse_sign :: "string \<Rightarrow> bool \<times> string" where
  "parse_sign cs =
     (case cs of
        [] \<Rightarrow> (False, cs)
      | c # r \<Rightarrow>
          if c = CHR ''-'' then (True, r)
          else if c = CHR ''+'' then (False, r)
          else (False, cs))"

definition parse_exponent :: "string \<Rightarrow> (int \<times> string) option" where
  "parse_exponent cs =
     (case cs of
        [] \<Rightarrow> Some (0, cs)
      | c # r \<Rightarrow>
          if c = CHR ''e'' \<or> c = CHR ''E'' then
            (let ds = snd (parse_sign r) in
             if takeWhile is_digit ds = [] then None
             else Some ((if fst (parse_sign r) then - 1 else 1)
                          * int (digits_val (takeWhile is_digit ds)),
                        dropWhile is_digit ds))
          else Some (0, cs))"

definition scale10 :: "real \<Rightarrow> int \<Rightarrow> real" where
  "scale10 m e = (if e < 0 then m / 10 ^ nat (- e) else m * 10 ^ nat e)"

definition parse_number :: "string \<Rightarrow> (real \<times> string) option" where
  "parse_number cs =
     (let neg = (cs \<noteq> [] \<and> hd cs = CHR ''-'');
          cs1 = (if neg then tl cs else cs);
          ip = takeWhile is_digit cs1
      in if ip = [] \<or> (length ip > 1 \<and> hd ip = CHR ''0'') then None
         else
           (case parse_fraction (dropWhile is_digit cs1) of
              None \<Rightarrow> None
            | Some (fp, cs3) \<Rightarrow>
                (case parse_exponent cs3 of
                   None \<Rightarrow> None
                 | Some (e, cs4) \<Rightarrow>
                     (let x = scale10 (real (digits_val (ip @ fp)) / 10 ^ length fp) e
                      in Some (if neg then - x else x, cs4)))))"

text \<open>The values that hold no other value: the three literals and the numbers.\<close>

definition parse_scalar :: "string \<Rightarrow> (js \<times> string) option" where
  "parse_scalar cs =
     (if take 4 cs = ''true'' then Some (JBool True, drop 4 cs)
      else if take 5 cs = ''false'' then Some (JBool False, drop 5 cs)
      else if take 4 cs = ''null'' then Some (JNull, drop 4 cs)
      else (case parse_number cs of
              None \<Rightarrow> None
            | Some (x, r) \<Rightarrow> Some (JNum x, r)))"

text \<open>The key of a member, a string literal, up to the colon after it.\<close>

definition parse_key :: "string \<Rightarrow> (string \<times> string) option" where
  "parse_key cs =
     (case skip_ws cs of
        [] \<Rightarrow> None
      | q # r \<Rightarrow>
          if q \<noteq> CHR 0x22 then None
          else
            (case parse_chars r [] of
               None \<Rightarrow> None
             | Some (k, r') \<Rightarrow>
                 (case skip_ws r' of
                    [] \<Rightarrow> None
                  | colon # r'' \<Rightarrow> if colon = CHR '':'' then Some (k, r'') else None)))"

fun parse_value :: "nat \<Rightarrow> string \<Rightarrow> (js \<times> string) option"
  and parse_elements :: "nat \<Rightarrow> string \<Rightarrow> js list \<Rightarrow> (js \<times> string) option"
  and parse_members :: "nat \<Rightarrow> string \<Rightarrow> (string \<times> js) list \<Rightarrow> (js \<times> string) option"
where
  "parse_value 0 cs = None"
| "parse_value (Suc n) cs =
     (case skip_ws cs of
        [] \<Rightarrow> None
      | c # r \<Rightarrow>
          if c = CHR ''{'' then
            (case skip_ws r of
               [] \<Rightarrow> None
             | d # r' \<Rightarrow> if d = CHR ''}'' then Some (JObj [], r') else parse_members n r [])
          else if c = CHR ''['' then
            (case skip_ws r of
               [] \<Rightarrow> None
             | d # r' \<Rightarrow> if d = CHR '']'' then Some (JArr [], r') else parse_elements n r [])
          else if c = CHR 0x22 then
            (case parse_chars r [] of
               None \<Rightarrow> None
             | Some (s, r') \<Rightarrow> Some (JStr s, r'))
          else parse_scalar (c # r))"
| "parse_elements 0 cs acc = None"
| "parse_elements (Suc n) cs acc =
     (case parse_value n cs of
        None \<Rightarrow> None
      | Some (v, r) \<Rightarrow>
          (case skip_ws r of
             [] \<Rightarrow> None
           | d # r' \<Rightarrow>
               if d = CHR '','' then parse_elements n r' (acc @ [v])
               else if d = CHR '']'' then Some (JArr (acc @ [v]), r')
               else None))"
| "parse_members 0 cs acc = None"
| "parse_members (Suc n) cs acc =
     (case parse_key cs of
        None \<Rightarrow> None
      | Some (k, r) \<Rightarrow>
          (case parse_value n r of
             None \<Rightarrow> None
           | Some (v, r') \<Rightarrow>
               (case skip_ws r' of
                  [] \<Rightarrow> None
                | d # r'' \<Rightarrow>
                    if d = CHR '','' then parse_members n r'' (AList.update k v acc)
                    else if d = CHR ''}'' then Some (JObj (AList.update k v acc), r'')
                    else None)))"

definition JSON_parse :: "string \<Rightarrow> js option" where
  "JSON_parse s =
     (case parse_value (2 * length s + 2) s of
        None \<Rightarrow> None
      | Some (v, r) \<Rightarrow> if skip_ws r = [] then Some v else None)"

section \<open>The data model (types.ts)\<close>

text \<open>
  An enum becomes a datatype; \<open>segment_value\<close> gives the string each member stands for.
  Every \<^verbatim>\<open>number\<close> is a real. The fields \<^verbatim>\<open>id\<close>, \<^verbatim>\<open>type\<close> and \<^verbatim>\<open>value\<close> carry a
  prime because the plain names are taken.
\<close>

datatype PlayerSegment = WHALE | DOLPHIN | MINNOW | FREE_TO_PLAY | AT_RISK | CHURNED

fun segment_value :: "PlayerSegment \<Rightarrow> string" where
  "segment_value WHALE = ''Whale''"
| "segment_value DOLPHIN = ''Dolphin''"
| "segment_value MINNOW = ''Minnow''"
| "segment_value FREE_TO_PLAY = ''F2P''"
| "segment_value AT_RISK = ''At-Risk''"
| "segment_value CHURNED = ''Churned''"

record GameEvent =
  timestamp :: string
  type' :: string
  value' :: "real option"
  metadata :: js

record Player =
  id' :: string
  name :: string
  joinDate :: string
  lastActive :: string
  level :: real
  totalSpent :: real
  sessionCount :: real
  retentionScore :: real
  segment :: PlayerSegment
  intent :: string
  recentEvents :: "GameEvent list"

record SafetyConstraints =
  maxActionsPerPlayerPerWeek :: real
  maxRewardValueUSD :: real
  blacklistedSegments :: "PlayerSegment list"
  complianceEnabled :: bool
  budgetCapDaily :: real

text \<open>A typed object seen as a plain value, as it is once spread into an \<^verbatim>\<open>any\<close>.\<close>

definition GameEvent_js :: "GameEvent \<Rightarrow> js" where
  "GameEvent_js e =
     JObj ([(''timestamp'', JStr (timestamp e)), (''type'', JStr (type' e))]
           @ (case value' e of None \<Rightarrow> [] | Some x \<Rightarrow> [(''value'', JNum x)])
           @ [(''metadata'', metadata e)])"

definition Player_js :: "Player \<Rightarrow> js" where
  "Player_js p =
     JObj [(''id'', JStr (id' p)), (''name'', JStr (name p)),
           (''joinDate'', JStr (joinDate p)), (''lastActive'', JStr (lastActive p)),
           (''level'', JNum (level p)), (''totalSpent'', JNum (totalSpent p)),
           (''sessionCount'', JNum (sessionCount p)),
           (''retentionScore'', JNum (retentionScore p)),
           (''segment'', JStr (segment_value (segment p))),
           (''intent'', JStr (intent p)),
           (''recentEvents'', JArr (map GameEvent_js (recentEvents p)))]"

section \<open>Constants (constants.tsx)\<close>

definition DEFAULT_SAFETY_CONSTRAINTS :: SafetyConstraints where
  "DEFAULT_SAFETY_CONSTRAINTS =
     \<lparr>maxActionsPerPlayerPerWeek = 1, maxRewardValueUSD = 25,
      blacklistedSegments = [CHURNED], complianceEnabled = True, budgetCapDaily = 1000\<rparr>"

definition MOCK_PLAYERS :: "Player list" where
  "MOCK_PLAYERS =
     [\<lparr>id' = ''p_8921'', name = ''Alex G.'', joinDate = ''2023-11-15'',
       lastActive = ''2024-05-20T14:30:00Z'', level = 42, totalSpent = 1250.5,
       sessionCount = 154, retentionScore = 88, segment = WHALE,
       intent = ''Competitive progression seeker'',
       recentEvents =
         [\<lparr>timestamp = ''2024-05-20T14:25:00Z'', type' = ''PURCHASE'', value' = Some 19.99,
           metadata = JObj [(''item'', JStr ''Season Pass'')]\<rparr>,
          \<lparr>timestamp = ''2024-05-20T14:10:00Z'', type' = ''GUILD_WAR'', value' = None,
           metadata = JObj [(''result'', JStr ''WIN'')]\<rparr>]\<rparr>,
      \<lparr>id' = ''p_1102'', name = ''Sam K.'', joinDate = ''2024-01-10'',
       lastActive = ''2024-05-18T09:00:00Z'', level = 12, totalSpent = 0,
       sessionCount = 8, retentionScore = 25, segment = AT_RISK,
       intent = ''Casual social explorer'',
       recentEvents =
         [\<lparr>timestamp = ''2024-05-18T08:50:00Z'', type' = ''LEVEL_UP'', value' = None,
           metadata = JObj [(''from'', JNum 11), (''to'', JNum 12)]\<rparr>,
          \<lparr>timestamp = ''2024-05-18T08:45:00Z'', type' = ''AD_WATCH'', value' = None,
           metadata = JObj [(''provider'', JStr ''IronSource'')]\<rparr>]\<rparr>,
      \<lparr>id' = ''p_5543'', name = ''Jordan L.'', joinDate = ''2024-04-01'',
       lastActive = ''2024-05-20T11:00:00Z'', level = 28, totalSpent = 45,
       sessionCount = 44, retentionScore = 72, segment = DOLPHIN,
       intent = ''Value-driven optimizer'',
       recentEvents =
         [\<lparr>timestamp = ''2024-05-20T10:45:00Z'', type' = ''QUEST_COMPLETE'', value' = None,
           metadata = JObj [(''quest_id'', JStr ''daily_4'')]\<rparr>]\<rparr>]"

section \<open>The oracle service (services/gemini.ts)\<close>

text \<open>
  \<^verbatim>\<open>generateContent\<close> is the remote model. The prompt of an analysis interpolates the
  player, the metrics and the constraints; that of a normalisation the raw data. The call
  either rejects or resolves to a response whose \<^verbatim>\<open>text\<close> is a string or undefined. The
  oracle is a parameter of the model: nothing is assumed about what it answers.
\<close>

datatype request = AnalyzeRequest Player js SafetyConstraints | NormalizeRequest string

datatype response = Rejected error | Response "string option"

type_synonym genai = "request \<Rightarrow> response"

text \<open>\<^verbatim>\<open>response.text || "{}"\<close>: undefined and the empty string are falsy.\<close>

fun text_or :: "string option \<Rightarrow> string \<Rightarrow> string" where
  "text_or None d = d"
| "text_or (Some t) d = (if t = [] then d else t)"

definition analyzePlayerData ::
  "genai \<Rightarrow> Player \<Rightarrow> js \<Rightarrow> SafetyConstraints \<Rightarrow> error + js" where
  "analyzePlayerData ai player metrics constraints =
     (case ai (AnalyzeRequest player metrics constraints) of
        Rejected e \<Rightarrow> Inl e
      | Response t \<Rightarrow>
          (case JSON_parse (text_or t ''{}'') of
             Some v \<Rightarrow> Inr v
           | None \<Rightarrow> Inr JNull))"

definition normalizeRawData :: "genai \<Rightarrow> string \<Rightarrow> error + js" where
  "normalizeRawData ai rawData =
     (case ai (NormalizeRequest rawData) of
        Rejected e \<Rightarrow> Inl e
      | Response t \<Rightarrow>
          (case JSON_parse (text_or t ''{}'') of
             Some v \<Rightarrow> Inr v
           | None \<Rightarrow>
               Inr (JObj [(''error'', JStr ''Failed to normalize''), (''raw'', JStr rawData)])))"

section \<open>The application state and its handlers (App.tsx, PlayerInspector.tsx)\<close>

text \<open>
  The state holds what \<^verbatim>\<open>useState\<close> holds in \<^verbatim>\<open>App\<close> (the active tab, the executed
  actions, the constraints) and in \<^verbatim>\<open>PlayerInspector\<close> (the player under analysis, the
  analysis on display; null is \<open>JNull\<close>); the search term and the animation step play no
  part in the handlers and are left out. A handler is run from its call to its end as one
  step: the suspension at \<^verbatim>\<open>await\<close> is not modelled, nor is the unmounting of the inspector
  when the tab changes.
\<close>

record ui_state =
  activeTab :: string
  executedActions :: "js list"
  constraints :: SafetyConstraints
  analyzingPlayerId :: "string option"
  currentAnalysis :: js

definition initial_state :: ui_state where
  "initial_state =
     \<lparr>activeTab = ''dashboard'', executedActions = [],
      constraints = DEFAULT_SAFETY_CONSTRAINTS, analyzingPlayerId = None,
      currentAnalysis = JNull\<rparr>"

text \<open>The setter of the constraints state, as \<^verbatim>\<open>useState\<close> returns it: it stores its argument.\<close>

definition setConstraints :: "SafetyConstraints \<Rightarrow> ui_state \<Rightarrow> ui_state" where
  "setConstraints c st = st\<lparr>constraints := c\<rparr>"

definition handleActionTriggered :: "js \<Rightarrow> ui_state \<Rightarrow> ui_state" where
  "handleActionTriggered action st =
     st\<lparr>executedActions := action # executedActions st, activeTab := ''actions''\<rparr>"

text \<open>An object literal: each key is written in turn onto the properties copied so far.\<close>

definition set_props :: "(string \<times> js) list \<Rightarrow> (string \<times> js) list \<Rightarrow> (string \<times> js) list" where
  "set_props kvs ps = foldl (\<lambda>acc kv. AList.update (fst kv) (snd kv) acc) ps kvs"

definition analysis_metrics :: js where
  "analysis_metrics = JObj [(''dau'', JNum 12000), (''retention'', JNum 40)]"

text \<open>
  \<^verbatim>\<open>result.recommendedAction.primaryReason || result.reasoningChain.priorityAlignment\<close>:
  the right operand is read only when the left one is falsy.
\<close>

definition reasoning_of :: "js \<Rightarrow> error + js" where
  "reasoning_of result =
     (case get_prop result ''recommendedAction'' of
        Inl e \<Rightarrow> Inl e
      | Inr ra \<Rightarrow>
          (case get_prop ra ''primaryReason'' of
             Inl e \<Rightarrow> Inl e
           | Inr pr \<Rightarrow>
               if truthy pr then Inr pr
               else
                 (case get_prop result ''reasoningChain'' of
                    Inl e \<Rightarrow> Inl e
                  | Inr rc \<Rightarrow> get_prop rc ''priorityAlignment'')))"

text \<open>
  The argument of \<^verbatim>\<open>onActionTriggered\<close>: the recommended action spread, then six keys.
  \<open>now\<close> is what \<^verbatim>\<open>new Date().toISOString()\<close> returned.
\<close>

definition triggered_action :: "js \<Rightarrow> Player \<Rightarrow> string \<Rightarrow> error + js" where
  "triggered_action result player now =
     (case get_prop result ''recommendedAction'' of
        Inl e \<Rightarrow> Inl e
      | Inr ra \<Rightarrow>
          (case get_prop result ''confidence'' of
             Inl e \<Rightarrow> Inl e
           | Inr conf \<Rightarrow>
               (case reasoning_of result of
                  Inl e \<Rightarrow> Inl e
                | Inr reasoning \<Rightarrow>
                    Inr (JObj (set_props
                           [(''playerId'', JStr (id' player)),
                            (''playerName'', JStr (name player)),
                            (''timestamp'', JStr now),
                            (''confidence'', conf),
                            (''reasoning'', reasoning),
                            (''status'', JStr ''EXECUTED'')]
                           (spread_props ra))))))"

text \<open>
  The handler returns the error its promise rejects with, if any, and the state. The
  \<^verbatim>\<open>finally\<close> block runs on every path.
\<close>

definition handleRunAIAnalysis ::
  "genai \<Rightarrow> string \<Rightarrow> Player \<Rightarrow> ui_state \<Rightarrow> error option \<times> ui_state" where
  "handleRunAIAnalysis ai now player st =
     (let st1 = st\<lparr>analyzingPlayerId := Some (id' player), currentAnalysis := JNull\<rparr> in
      case analyzePlayerData ai player analysis_metrics (constraints st) of
        Inl e \<Rightarrow> (Some e, st1\<lparr>analyzingPlayerId := None\<rparr>)
      | Inr result \<Rightarrow>
          if truthy result then
            (let st2 = st1\<lparr>currentAnalysis :=
                           JObj (set_props [(''player'', Player_js player)]
                                   (spread_props result))\<rparr> in
             case get_prop result ''actionNeeded'' of
               Inl e \<Rightarrow> (Some e, st2\<lparr>analyzingPlayerId := None\<rparr>)
             | Inr needed \<Rightarrow>
                 if truthy needed then
                   (case triggered_action result player now of
                      Inl e \<Rightarrow> (Some e, st2\<lparr>analyzingPlayerId := None\<rparr>)
                    | Inr action \<Rightarrow>
                        (None, (handleActionTriggered action st2)\<lparr>analyzingPlayerId := None\<rparr>))
                 else (None, st2\<lparr>analyzingPlayerId := None\<rparr>))
          else (None, st1\<lparr>analyzingPlayerId := None\<rparr>))"

text \<open>
  A sequence of evaluations, each with the oracle that answers it, the clock reading and
  the player; an evaluation that throws leaves its state to the next one.
\<close>

record evaluation =
  ev_oracle :: genai
  ev_now :: string
  ev_player :: Player

fun run_evaluations :: "evaluation list \<Rightarrow> ui_state \<Rightarrow> ui_state" where
  "run_evaluations [] st = st"
| "run_evaluations (e # es) st =
     run_evaluations es (snd (handleRunAIAnalysis (ev_oracle e) (ev_now e) (ev_player e) st))"

section \<open>Reading the ledger\<close>

text \<open>
  The executed actions are the ledger. An entry is read by its properties; a property
  that is missing reads as undefined.
\<close>

definition entry_prop :: "js \<Rightarrow> string \<Rightarrow> js" where
  "entry_prop e k = (case get_prop e k of Inl err \<Rightarrow> JUndefined | Inr v \<Rightarrow> v)"

definition is_executed :: "js \<Rightarrow> bool" where
  "is_executed e = (entry_prop e ''status'' = JStr ''EXECUTED'')"

definition entry_value :: "js \<Rightarrow> real" where
  "entry_value e = (case entry_prop e ''estimatedValueUSD'' of JNum x \<Rightarrow> x | _ \<Rightarrow> 0)"

text \<open>
  Both guards of the handler hold: the result is truthy and so is its \<^verbatim>\<open>actionNeeded\<close>.
\<close>

definition action_needed :: "js \<Rightarrow> bool" where
  "action_needed result =
     (truthy result \<and>
      (case get_prop result ''actionNeeded'' of Inl err \<Rightarrow> False | Inr needed \<Rightarrow> truthy needed))"

text \<open>
  The instant of a timestamp, in milliseconds since the epoch, for a text in the format
  \<^verbatim>\<open>toISOString\<close> writes (\<^verbatim>\<open>YYYY-MM-DDTHH:mm:ss.sssZ\<close>); \<open>None\<close> for any other text. The
  history view reads an entry's timestamp back this way (\<^verbatim>\<open>new Date(action.timestamp)\<close>).
\<close>

definition days_from_civil :: "int \<Rightarrow> int \<Rightarrow> int \<Rightarrow> int" where
  "days_from_civil y m d =
     (let y' = (if m \<le> 2 then y - 1 else y);
          era = y' div 400;
          yoe = y' - era * 400;
          doy = (153 * (if m > 2 then m - 3 else m + 9) + 2) div 5 + d - 1;
          doe = yoe * 365 + yoe div 4 - yoe div 100 + doy
      in era * 146097 + doe - 719468)"

definition days_in_month :: "int \<Rightarrow> int \<Rightarrow> int" where
  "days_in_month y m =
     (if m = 2 then (if y mod 4 = 0 \<and> (y mod 100 \<noteq> 0 \<or> y mod 400 = 0) then 29 else 28)
      else if m = 4 \<or> m = 6 \<or> m = 9 \<or> m = 11 then 30
      else 31)"

definition field_val :: "string \<Rightarrow> nat \<Rightarrow> nat \<Rightarrow> int" where
  "field_val s i n = int (digits_val (take n (drop i s)))"

definition Date_parse :: "string \<Rightarrow> int option" where
  "Date_parse s =
     (if length s = 24
         \<and> list_all is_digit (take 4 s) \<and> s ! 4 = CHR ''-''
         \<and> list_all is_digit (take 2 (drop 5 s)) \<and> s ! 7 = CHR ''-''
         \<and> list_all is_digit (take 2 (drop 8 s)) \<and> s ! 10 = CHR ''T''
         \<and> list_all is_digit (take 2 (drop 11 s)) \<and> s ! 13 = CHR '':''
         \<and> list_all is_digit (take 2 (drop 14 s)) \<and> s ! 16 = CHR '':''
         \<and> list_all is_digit (take 2 (drop 17 s)) \<and> s ! 19 = CHR ''.''
         \<and> list_all is_digit (take 3 (drop 20 s)) \<and> s ! 23 = CHR ''Z''
      then
        (let y = field_val s 0 4; mo = field_val s 5 2; d = field_val s 8 2;
             h = field_val s 11 2; mi = field_val s 14 2; sec = field_val s 17 2;
             ms = field_val s 20 3
         in if 1 \<le> mo \<and> mo \<le> 12 \<and> 1 \<le> d \<and> d \<le> days_in_month y mo
               \<and> h \<le> 23 \<and> mi \<le> 59 \<and> sec \<le> 59
            then Some ((((days_from_civil y mo d * 24 + h) * 60 + mi) * 60 + sec) * 1000 + ms)
            else None)
      else None)"

definition entry_instant :: "js \<Rightarrow> int option" where
  "entry_instant e = (case entry_prop e ''timestamp'' of JStr s \<Rightarrow> Date_parse s | _ \<Rightarrow> None)"

text \<open>
  The trailing seven days that end at the instant \<open>T\<close>, open at the far edge; and the UTC
  day of an instant, counted from the epoch.
\<close>

definition in_trailing_week :: "int \<Rightarrow> int \<Rightarrow> bool" where
  "in_trailing_week T t = (T - 7 * 86400000 < t \<and> t \<le> T)"

definition utc_day :: "int \<Rightarrow> int" where
  "utc_day t = t div 86400000"

definition counts_for :: "string \<Rightarrow> int \<Rightarrow> js \<Rightarrow> bool" where
  "counts_for pid T e =
     (is_executed e \<and> entry_prop e ''playerId'' = JStr pid \<and>
      (case entry_instant e of None \<Rightarrow> False | Some t \<Rightarrow> in_trailing_week T t))"

definition executed_in_week :: "string \<Rightarrow> int \<Rightarrow> js list \<Rightarrow> nat" where
  "executed_in_week pid T ledger = length (filter (counts_for pid T) ledger)"

definition spent_by :: "int \<Rightarrow> js \<Rightarrow> real" where
  "spent_by day e =
     (if is_executed e \<and> map_option utc_day (entry_instant e) = Some day
      then entry_value e else 0)"

definition spent_on_day :: "int \<Rightarrow> js list \<Rightarrow> real" where
  "spent_on_day day ledger = sum_list (map (spent_by day) ledger)"




section \<open>Sample inputs\<close>

text \<open>
  Answers the oracle can give: one that engages the player, one that stays silent, and
  two that engage with a gift whose value the answer states.
\<close>

definition engage_text :: string where
  \<open>engage_text = ''{"reasoningChain":{"riskOpportunity":"r","priorityAlignment":"p","designerVoiceLogic":"d","safetyAudit":"s","expectedLongTermImpact":"e"},"actionNeeded":true,"recommendedAction":{"type":"PUSH_NOTIFICATION","description":"Check in","primaryReason":"Win back"},"confidence":90}''\<close>

definition silent_text :: string where
  \<open>silent_text = ''{"reasoningChain":{"riskOpportunity":"r","priorityAlignment":"p","designerVoiceLogic":"d","safetyAudit":"s","expectedLongTermImpact":"e"},"actionNeeded":false,"recommendedAction":{"type":"NONE"},"staySilentReasoning":"Healthy","confidence":80}''\<close>

definition gift30_text :: string where
  \<open>gift30_text = ''{"actionNeeded":true,"recommendedAction":{"type":"RESOURCE_GIFT","primaryReason":"Gift","estimatedValueUSD":30},"confidence":90}''\<close>

definition gift600_text :: string where
  \<open>gift600_text = ''{"actionNeeded":true,"recommendedAction":{"type":"RESOURCE_GIFT","primaryReason":"Gift","estimatedValueUSD":600},"confidence":90}''\<close>

definition answering :: "string \<Rightarrow> genai" where
  "answering t req = Response (Some t)"

definition alex :: Player where
  "alex = MOCK_PLAYERS ! 0"

definition sam :: Player where
  "sam = MOCK_PLAYERS ! 1"

definition churned_player :: Player where
  "churned_player =
     \<lparr>id' = ''p_0007'', name = ''Kim C.'', joinDate = ''2023-02-01'',
      lastActive = ''2023-09-30T10:00:00Z'', level = 5, totalSpent = 0, sessionCount = 3,
      retentionScore = 2, segment = CHURNED, intent = ''Lapsed'', recentEvents = []\<rparr>"

definition bypass_state :: ui_state where
  "bypass_state = setConstraints (DEFAULT_SAFETY_CONSTRAINTS\<lparr>complianceEnabled := False\<rparr>) initial_state"

text \<open>What \<open>gift30_text\<close> parses to, the action it recommends, and the entry recorded for Alex.\<close>

definition gift30_recommended :: js where
  "gift30_recommended =
     JObj [(''type'', JStr ''RESOURCE_GIFT''), (''primaryReason'', JStr ''Gift''),
           (''estimatedValueUSD'', JNum 30)]"

definition gift30_result :: js where
  "gift30_result =
     JObj [(''actionNeeded'', JBool True), (''recommendedAction'', gift30_recommended),
           (''confidence'', JNum 90)]"

definition gift30_entry :: "Player \<Rightarrow> js" where
  "gift30_entry p =
     JObj [(''type'', JStr ''RESOURCE_GIFT''), (''primaryReason'', JStr ''Gift''),
           (''estimatedValueUSD'', JNum 30), (''playerId'', JStr (id' p)),
           (''playerName'', JStr (name p)),
           (''timestamp'', JStr ''2024-05-20T14:30:00.000Z''), (''confidence'', JNum 90),
           (''reasoning'', JStr ''Gift''), (''status'', JStr ''EXECUTED'')]"

definition engage_alex_twice :: "evaluation list" where
  "engage_alex_twice =
     [\<lparr>ev_oracle = answering engage_text, ev_now = ''2024-05-20T14:30:00.000Z'',
       ev_player = alex\<rparr>,
      \<lparr>ev_oracle = answering engage_text, ev_now = ''2024-05-20T14:30:01.000Z'',
       ev_player = alex\<rparr>]"

definition gift600_alex_then_sam :: "evaluation list" where
  "gift600_alex_then_sam =
     [\<lparr>ev_oracle = answering gift600_text, ev_now = ''2024-05-20T14:30:00.000Z'',
       ev_player = alex\<rparr>,
      \<lparr>ev_oracle = answering gift600_text, ev_now = ''2024-05-20T14:30:01.000Z'',
       ev_player = sam\<rparr>]"

definition truncated_text :: string where
  \<open>truncated_text = ''{"actionNeeded": tr''\<close>

section \<open>The fuel of the parser\<close>

text \<open>
  Every step of the parser leaves less text than it was given, and a value is parsed alike
  by every amount of fuel from twice the characters it spans: a result of \<open>None\<close> from
  \<open>JSON_parse\<close> is never for want of fuel.
\<close>

lemma skip_ws_length: "length (skip_ws s) \<le> length s"
  by (simp add: skip_ws_def length_dropWhile_le)

lemma parse_chars_shorter: "parse_chars cs acc = Some (s, r) \<Longrightarrow> length r < length cs"
proof (induction "length cs" arbitrary: cs acc rule: less_induct)
  case less
  show ?case
  proof (cases cs)
    case Nil
    with less.prems show ?thesis by simp
  next
    case (Cons c cs')
    have step: "length r' \<le> length cs' \<longrightarrow> length r < length r'"
      if "parse_chars r' acc' = Some (s, r)" for r' acc'
    proof
      assume "length r' \<le> length cs'"
      with Cons have "length r' < length cs" by simp
      from less.hyps [OF this that] show "length r < length r'" .
    qed
    from less.prems show ?thesis
      unfolding Cons parse_chars.simps
      by (auto split: if_splits list.splits option.splits dest!: step)
  qed
qed

lemma parse_fraction_length: "parse_fraction cs = Some (fp, r) \<Longrightarrow> length r \<le> length cs"
  by (auto simp: parse_fraction_def le_SucI length_dropWhile_le split: list.splits if_splits)

lemma parse_sign_length: "length (snd (parse_sign cs)) \<le> length cs"
  by (auto simp: parse_sign_def split: list.splits)

lemma parse_exponent_length: "parse_exponent cs = Some (e, r) \<Longrightarrow> length r \<le> length cs"
  using parse_sign_length
  by (auto simp: parse_exponent_def Let_def intro: le_trans [OF length_dropWhile_le] le_SucI
      split: list.splits if_splits)

lemma dropWhile_shorter: "takeWhile P xs \<noteq> [] \<Longrightarrow> length (dropWhile P xs) < length xs"
  by (cases xs) (auto simp: less_Suc_eq_le length_dropWhile_le split: if_splits)

lemma parse_number_shorter: "parse_number cs = Some (x, r) \<Longrightarrow> length r < length cs"
proof -
  assume a: "parse_number cs = Some (x, r)"
  define cs1 where "cs1 = (if cs \<noteq> [] \<and> hd cs = CHR ''-'' then tl cs else cs)"
  from a have ip: "takeWhile is_digit cs1 \<noteq> []"
    by (auto simp: parse_number_def Let_def cs1_def split: if_splits)
  from a obtain fp cs3 e where f: "parse_fraction (dropWhile is_digit cs1) = Some (fp, cs3)"
    and ex: "parse_exponent cs3 = Some (e, r)"
    by (auto simp: parse_number_def Let_def cs1_def split: if_splits option.splits)
  have "length cs1 \<le> length cs" by (simp add: cs1_def)
  moreover have "length (dropWhile is_digit cs1) < length cs1"
    using ip by (rule dropWhile_shorter)
  ultimately show ?thesis
    using parse_fraction_length [OF f] parse_exponent_length [OF ex] by linarith
qed

lemma skip_ws_Cons_length: "skip_ws s = c # rest \<Longrightarrow> length rest < length s"
  using skip_ws_length [of s] by simp

lemma parse_scalar_shorter:
  assumes "parse_scalar cs = Some (v, r)" shows "length r < length cs"
proof -
  have "cs \<noteq> []" if "take k cs = w" "w \<noteq> []" for k w
    using that by auto
  then have k: "length (drop (Suc k) cs) < length cs" if "take j cs = w" "w \<noteq> []" for k j w
    using that by (cases cs) auto
  from assms show ?thesis
    unfolding parse_scalar_def
    by (auto split: if_splits option.splits
        simp: parse_number_shorter k [of 4 "''true''" 3, simplified] 
          k [of 5 "''false''" 4, simplified] k [of 4 "''null''" 3, simplified]
        simp del: take_Suc_Cons)
qed

lemma parse_value_leaf:
  assumes "skip_ws s = c # rest" and "c \<noteq> CHR ''{''" and "c \<noteq> CHR ''[''"
  shows "parse_value (Suc n) s =
           (if c = CHR 0x22 then
              (case parse_chars rest [] of None \<Rightarrow> None | Some (str, r') \<Rightarrow> Some (JStr str, r'))
            else parse_scalar (c # rest))"
  using assms by simp

lemma parse_value_leaf_shorter:
  assumes sk: "skip_ws s = c # rest" and c: "c \<noteq> CHR ''{''" "c \<noteq> CHR ''[''"
    and a: "parse_value (Suc n) s = Some (v, r)"
  shows "length r < length s"
proof -
  from skip_ws_Cons_length [OF sk] have len: "length (c # rest) \<le> length s" by simp
  show ?thesis
  proof (cases "c = CHR 0x22")
    case True
    with a parse_value_leaf [OF sk c, of n]
    obtain str where "parse_chars rest [] = Some (str, r)"
      by (auto split: option.splits)
    from parse_chars_shorter [OF this] len show ?thesis by simp
  next
    case False
    with a parse_value_leaf [OF sk c, of n] have "parse_scalar (c # rest) = Some (v, r)"
      by simp
    from parse_scalar_shorter [OF this] len show ?thesis by simp
  qed
qed

lemma fuel_step_value:
  assumes IHe: "\<And>s acc v r. parse_elements n s acc = Some (v, r) \<Longrightarrow>
             length r < length s \<and>
             (\<forall>m. 2 * (length s - length r) \<le> m \<longrightarrow> parse_elements m s acc = Some (v, r))"
    and IHm: "\<And>s acc v r. parse_members n s acc = Some (v, r) \<Longrightarrow>
             length r < length s \<and>
             (\<forall>m. 2 * (length s - length r) \<le> m \<longrightarrow> parse_members m s acc = Some (v, r))"
    and a: "parse_value (Suc n) s = Some (v, r)"
  shows "length r < length s \<and>
         (\<forall>m. 2 * (length s - length r) \<le> Suc m \<longrightarrow> parse_value m s = Some (v, r))"
proof -
  from a obtain c rest where sk: "skip_ws s = c # rest"
    by (auto split: list.splits)
  have len: "length rest < length s"
    using sk by (rule skip_ws_Cons_length)
  have fuel: "\<exists>m'. m = Suc m'" if "2 * (length s - length r) \<le> Suc m" "length r < length s" for m
    using that by (cases m) auto
  consider (leaf) "c \<noteq> CHR ''{''" "c \<noteq> CHR ''[''"
    | (obj) "c = CHR ''{''" | (arr) "c = CHR ''[''" by blast
  then show ?thesis
  proof cases
    case leaf
    have r: "length r < length s"
      using sk leaf a by (rule parse_value_leaf_shorter)
    have "parse_value m s = Some (v, r)" if "2 * (length s - length r) \<le> Suc m" for m
    proof -
      from fuel [OF that r] obtain m' where "m = Suc m'" ..
      with a parse_value_leaf [OF sk leaf] show ?thesis by simp
    qed
    with r show ?thesis by blast
  next
    case obj
    from a sk obj obtain d r' where sk2: "skip_ws rest = d # r'"
      by (auto split: list.splits)
    show ?thesis
    proof (cases "d = CHR ''}''")
      case True
      with a sk obj sk2 have vr: "v = JObj []" "r = r'" by auto
      have r: "length r < length s"
        using skip_ws_Cons_length [OF sk2] len vr by simp
      have "parse_value m s = Some (v, r)" if "2 * (length s - length r) \<le> Suc m" for m
      proof -
        from fuel [OF that r] obtain m' where "m = Suc m'" ..
        with sk obj sk2 True vr show ?thesis by simp
      qed
      with r show ?thesis by blast
    next
      case False
      with a sk obj sk2 have pm: "parse_members n rest [] = Some (v, r)" by simp
      from IHm [OF pm] have r': "length r < length rest"
        and st: "\<And>m. 2 * (length rest - length r) \<le> m \<Longrightarrow> parse_members m rest [] = Some (v, r)"
        by blast+
      have r: "length r < length s" using r' len by simp
      have "parse_value m s = Some (v, r)" if "2 * (length s - length r) \<le> Suc m" for m
      proof -
        from fuel [OF that r] obtain m' where m: "m = Suc m'" ..
        have "2 * (length rest - length r) \<le> m'"
          using that m len r' by simp
        from st [OF this] sk obj sk2 False m show ?thesis by simp
      qed
      with r show ?thesis by blast
    qed
  next
    case arr
    from a sk arr obtain d r' where sk2: "skip_ws rest = d # r'"
      by (auto split: list.splits)
    show ?thesis
    proof (cases "d = CHR '']''")
      case True
      with a sk arr sk2 have vr: "v = JArr []" "r = r'" by auto
      have r: "length r < length s"
        using skip_ws_Cons_length [OF sk2] len vr by simp
      have "parse_value m s = Some (v, r)" if "2 * (length s - length r) \<le> Suc m" for m
      proof -
        from fuel [OF that r] obtain m' where "m = Suc m'" ..
        with sk arr sk2 True vr show ?thesis by simp
      qed
      with r show ?thesis by blast
    next
      case False
      with a sk arr sk2 have pm: "parse_elements n rest [] = Some (v, r)" by simp
      from IHe [OF pm] have r': "length r < length rest"
        and st: "\<And>m. 2 * (length rest - length r) \<le> m \<Longrightarrow> parse_elements m rest [] = Some (v, r)"
        by blast+
      have r: "length r < length s" using r' len by simp
      have "parse_value m s = Some (v, r)" if "2 * (length s - length r) \<le> Suc m" for m
      proof -
        from fuel [OF that r] obtain m' where m: "m = Suc m'" ..
        have "2 * (length rest - length r) \<le> m'"
          using that m len r' by simp
        from st [OF this] sk arr sk2 False m show ?thesis by simp
      qed
      with r show ?thesis by blast
    qed
  qed
qed

lemma fuel_step_elements:
  assumes IHv: "\<And>s v r. parse_value n s = Some (v, r) \<Longrightarrow>
             length r < length s \<and>
             (\<forall>m. 2 * (length s - length r) \<le> Suc m \<longrightarrow> parse_value m s = Some (v, r))"
    and IHe: "\<And>s acc v r. parse_elements n s acc = Some (v, r) \<Longrightarrow>
             length r < length s \<and>
             (\<forall>m. 2 * (length s - length r) \<le> m \<longrightarrow> parse_elements m s acc = Some (v, r))"
    and a: "parse_elements (Suc n) s acc = Some (v, r)"
  shows "length r < length s \<and>
         (\<forall>m. 2 * (length s - length r) \<le> m \<longrightarrow> parse_elements m s acc = Some (v, r))"
proof -
  from a obtain v1 r1 where pv: "parse_value n s = Some (v1, r1)"
    by (auto split: option.splits)
  from a pv obtain d r2 where sk: "skip_ws r1 = d # r2"
    by (auto split: list.splits)
  from IHv [OF pv] have l1: "length r1 < length s"
    and st1: "\<And>m. 2 * (length s - length r1) \<le> Suc m \<Longrightarrow> parse_value m s = Some (v1, r1)"
    by blast+
  have l2: "length r2 < length r1"
    using sk by (rule skip_ws_Cons_length)
  show ?thesis
  proof (cases "d = CHR '',''")
    case True
    with a pv sk have pe: "parse_elements n r2 (acc @ [v1]) = Some (v, r)" by simp
    from IHe [OF pe] have l3: "length r < length r2"
      and st3: "\<And>m. 2 * (length r2 - length r) \<le> m
                 \<Longrightarrow> parse_elements m r2 (acc @ [v1]) = Some (v, r)"
      by blast+
    have r: "length r < length s" using l1 l2 l3 by simp
    have "parse_elements m s acc = Some (v, r)" if "2 * (length s - length r) \<le> m" for m
    proof -
      from that l1 l2 l3 obtain m' where m: "m = Suc m'" by (cases m) auto
      have "2 * (length s - length r1) \<le> Suc m'" using that m l1 l2 l3 by simp
      from st1 [OF this] have v: "parse_value m' s = Some (v1, r1)" .
      have "2 * (length r2 - length r) \<le> m'" using that m l1 l2 l3 by simp
      from st3 [OF this] v sk True m show ?thesis by simp
    qed
    with r show ?thesis by blast
  next
    case False
    with a pv sk have vr: "d = CHR '']''" "v = JArr (acc @ [v1])" "r = r2"
      by (auto split: if_splits)
    have r: "length r < length s" using l1 l2 vr by simp
    have "parse_elements m s acc = Some (v, r)" if "2 * (length s - length r) \<le> m" for m
    proof -
      from that l1 l2 vr obtain m' where m: "m = Suc m'" by (cases m) auto
      have "2 * (length s - length r1) \<le> Suc m'" using that m l1 l2 vr by simp
      from st1 [OF this] sk vr m show ?thesis by simp
    qed
    with r show ?thesis by blast
  qed
qed

lemma parse_key_shorter:
  assumes "parse_key cs = Some (k, r)" shows "length r < length cs"
proof -
  from assms obtain q r0 where sk0: "skip_ws cs = q # r0"
    by (cases "skip_ws cs") (auto simp: parse_key_def)
  from assms sk0 obtain r1 where pk: "parse_chars r0 [] = Some (k, r1)"
    by (cases "parse_chars r0 []") (auto simp: parse_key_def split: if_splits list.splits)
  from assms sk0 pk obtain colon where sk1: "skip_ws r1 = colon # r"
    by (cases "skip_ws r1") (auto simp: parse_key_def split: if_splits)
  from skip_ws_Cons_length [OF sk0] parse_chars_shorter [OF pk] skip_ws_Cons_length [OF sk1]
  show ?thesis by simp
qed

lemma fuel_step_members:
  assumes IHv: "\<And>s v r. parse_value n s = Some (v, r) \<Longrightarrow>
             length r < length s \<and>
             (\<forall>m. 2 * (length s - length r) \<le> Suc m \<longrightarrow> parse_value m s = Some (v, r))"
    and IHm: "\<And>s acc v r. parse_members n s acc = Some (v, r) \<Longrightarrow>
             length r < length s \<and>
             (\<forall>m. 2 * (length s - length r) \<le> m \<longrightarrow> parse_members m s acc = Some (v, r))"
    and a: "parse_members (Suc n) s acc = Some (v, r)"
  shows "length r < length s \<and>
         (\<forall>m. 2 * (length s - length r) \<le> m \<longrightarrow> parse_members m s acc = Some (v, r))"
proof -
  from a obtain k r0 where pk: "parse_key s = Some (k, r0)"
    by (auto split: option.splits)
  from a pk obtain v1 r1 where pv: "parse_value n r0 = Some (v1, r1)"
    by (auto split: option.splits)
  from a pk pv obtain d r2 where sk: "skip_ws r1 = d # r2"
    by (auto split: list.splits)
  have l0: "length r0 < length s" using pk by (rule parse_key_shorter)
  from IHv [OF pv] have l1: "length r1 < length r0"
    and st1: "\<And>m. 2 * (length r0 - length r1) \<le> Suc m \<Longrightarrow> parse_value m r0 = Some (v1, r1)"
    by blast+
  have l2: "length r2 < length r1"
    using sk by (rule skip_ws_Cons_length)
  show ?thesis
  proof (cases "d = CHR '',''")
    case True
    with a pk pv sk have pm: "parse_members n r2 (AList.update k v1 acc) = Some (v, r)" by simp
    from IHm [OF pm] have l3: "length r < length r2"
      and st3: "\<And>m. 2 * (length r2 - length r) \<le> m
                 \<Longrightarrow> parse_members m r2 (AList.update k v1 acc) = Some (v, r)"
      by blast+
    have r: "length r < length s" using l0 l1 l2 l3 by simp
    have "parse_members m s acc = Some (v, r)" if "2 * (length s - length r) \<le> m" for m
    proof -
      from that l0 l1 l2 l3 obtain m' where m: "m = Suc m'" by (cases m) auto
      have "2 * (length r0 - length r1) \<le> Suc m'" using that m l0 l1 l2 l3 by simp
      from st1 [OF this] have v: "parse_value m' r0 = Some (v1, r1)" .
      have "2 * (length r2 - length r) \<le> m'" using that m l0 l1 l2 l3 by simp
      from st3 [OF this] v pk sk True m show ?thesis by simp
    qed
    with r show ?thesis by blast
  next
    case False
    with a pk pv sk have vr: "d = CHR ''}''" "v = JObj (AList.update k v1 acc)" "r = r2"
      by (auto split: if_splits)
    have r: "length r < length s" using l0 l1 l2 vr by simp
    have "parse_members m s acc = Some (v, r)" if "2 * (length s - length r) \<le> m" for m
    proof -
      from that l0 l1 l2 vr obtain m' where m: "m = Suc m'" by (cases m) auto
      have "2 * (length r0 - length r1) \<le> Suc m'" using that m l0 l1 l2 vr by simp
      from st1 [OF this] pk sk vr m show ?thesis by simp
    qed
    with r show ?thesis by blast
  qed
qed

lemma fuel_stable:
  "(\<forall>s v r. parse_value n s = Some (v, r) \<longrightarrow>
       length r < length s \<and>
       (\<forall>m. 2 * (length s - length r) \<le> Suc m \<longrightarrow> parse_value m s = Some (v, r)))
   \<and> (\<forall>s acc v r. parse_elements n s acc = Some (v, r) \<longrightarrow>
       length r < length s \<and>
       (\<forall>m. 2 * (length s - length r) \<le> m \<longrightarrow> parse_elements m s acc = Some (v, r)))
   \<and> (\<forall>s acc v r. parse_members n s acc = Some (v, r) \<longrightarrow>
       length r < length s \<and>
       (\<forall>m. 2 * (length s - length r) \<le> m \<longrightarrow> parse_members m s acc = Some (v, r)))"
proof (induction n)
  case 0
  show ?case by simp
next
  case (Suc n)
  note v = Suc [THEN conjunct1, rule_format]
  note e = Suc [THEN conjunct2, THEN conjunct1, rule_format]
  note m = Suc [THEN conjunct2, THEN conjunct2, rule_format]
  have V: "\<forall>s v r. parse_value (Suc n) s = Some (v, r) \<longrightarrow>
          length r < length s \<and>
          (\<forall>m. 2 * (length s - length r) \<le> Suc m \<longrightarrow> parse_value m s = Some (v, r))"
    by (intro allI impI) (rule fuel_step_value [OF e m])
  have E: "\<forall>s acc v r. parse_elements (Suc n) s acc = Some (v, r) \<longrightarrow>
          length r < length s \<and>
          (\<forall>m. 2 * (length s - length r) \<le> m \<longrightarrow> parse_elements m s acc = Some (v, r))"
    by (intro allI impI) (rule fuel_step_elements [OF v e])
  have M: "\<forall>s acc v r. parse_members (Suc n) s acc = Some (v, r) \<longrightarrow>
          length r < length s \<and>
          (\<forall>m. 2 * (length s - length r) \<le> m \<longrightarrow> parse_members m s acc = Some (v, r))"
    by (intro allI impI) (rule fuel_step_members [OF v m])
  show ?case
    by (rule conjI [OF V conjI [OF E M]])
qed

text \<open>Whatever any amount of fuel parses, the fuel that \<open>JSON_parse\<close> gives parses too.\<close>

lemma parse_value_fuel:
  assumes "parse_value n s = Some (v, r)"
  shows "parse_value (2 * length s + 2) s = Some (v, r)"
proof -
  from fuel_stable [of n] assms
  have "\<forall>m. 2 * (length s - length r) \<le> Suc m \<longrightarrow> parse_value m s = Some (v, r)"
    by blast
  moreover have "2 * (length s - length r) \<le> Suc (2 * length s + 2)" by simp
  ultimately show ?thesis by blast
qed

lemma JSON_parse_fuel:
  assumes "parse_value n s = Some (v, r)" and "skip_ws r = []"
  shows "JSON_parse s = Some v"
  using parse_value_fuel [OF assms(1)] assms(2) by (simp add: JSON_parse_def)

section \<open>Properties of objects and of the recorded entry\<close>

lemma map_of_set_props:
  "map_of (set_props kvs ps) k = (map_of ps ++ map_of (rev kvs)) k"
  unfolding set_props_def
proof (induction kvs arbitrary: ps)
  case Nil
  then show ?case by simp
next
  case (Cons kv kvs)
  show ?case
    by (cases kv) (simp add: Cons.IH update_conv' map_add_def split: option.splits)
qed

lemma spread_props_lookup:
  assumes "k \<noteq> ''length''" and "get_prop v k = Inr x"
  shows "(case map_of (spread_props v) k of None \<Rightarrow> JUndefined | Some y \<Rightarrow> y) = x"
  using assms by (cases v) auto

text \<open>The six keys the handler writes itself.\<close>

lemma triggered_action_fixed:
  assumes "triggered_action result player now = Inr action"
  shows "entry_prop action ''status'' = JStr ''EXECUTED''"
    and "entry_prop action ''playerId'' = JStr (id' player)"
    and "entry_prop action ''playerName'' = JStr (name player)"
    and "entry_prop action ''timestamp'' = JStr now"
  using assms
  by (auto simp: triggered_action_def entry_prop_def map_of_set_props split: sum.splits)

text \<open>Every other property is the recommended action's, copied by the spread.\<close>

lemma triggered_action_copied:
  assumes "triggered_action result player now = Inr action"
    and "get_prop result ''recommendedAction'' = Inr ra"
    and "k \<notin> {''playerId'', ''playerName'', ''timestamp'', ''confidence'', ''reasoning'',
               ''status'', ''length''}"
  shows "entry_prop action k = entry_prop ra k"
proof -
  from assms(1,2) obtain pr where pr: "get_prop ra ''primaryReason'' = Inr pr"
    by (auto simp: triggered_action_def reasoning_of_def split: sum.splits)
  then obtain x where x: "get_prop ra k = Inr x"
    by (cases ra) auto
  have "(case map_of (spread_props ra) k of None \<Rightarrow> JUndefined | Some y \<Rightarrow> y) = x"
    using spread_props_lookup [OF _ x] assms(3) by simp
  then show ?thesis
    using assms x
    by (auto simp: triggered_action_def entry_prop_def map_of_set_props map_add_def
        split: sum.splits)
qed

section \<open>What one evaluation does to the ledger\<close>

lemma ledger_recorded:
  assumes "analyzePlayerData ai player analysis_metrics (constraints st) = Inr result"
    and "action_needed result"
    and "triggered_action result player now = Inr action"
  shows "executedActions (snd (handleRunAIAnalysis ai now player st)) = action # executedActions st"
  using assms
  by (auto simp: handleRunAIAnalysis_def action_needed_def handleActionTriggered_def Let_def
      split: sum.splits)

lemma ledger_not_needed:
  assumes "analyzePlayerData ai player analysis_metrics (constraints st) = Inr result"
    and "\<not> action_needed result"
  shows "executedActions (snd (handleRunAIAnalysis ai now player st)) = executedActions st"
  using assms
  by (auto simp: handleRunAIAnalysis_def action_needed_def handleActionTriggered_def Let_def
      split: sum.splits)

lemma ledger_threw:
  assumes "analyzePlayerData ai player analysis_metrics (constraints st) = Inr result"
    and "triggered_action result player now = Inl e"
  shows "executedActions (snd (handleRunAIAnalysis ai now player st)) = executedActions st"
  using assms
  by (auto simp: handleRunAIAnalysis_def action_needed_def handleActionTriggered_def Let_def
      split: sum.splits)

lemma ledger_rejected:
  assumes "analyzePlayerData ai player analysis_metrics (constraints st) = Inl e"
  shows "executedActions (snd (handleRunAIAnalysis ai now player st)) = executedActions st"
  using assms
  by (auto simp: handleRunAIAnalysis_def Let_def split: sum.splits)




lemma counts_for_recorded:
  assumes "triggered_action result player now = Inr action"
    and "Date_parse now = Some t"
  shows "counts_for (id' player) T action = in_trailing_week T t"
  using triggered_action_fixed [OF assms(1)] assms(2)
  by (simp add: counts_for_def is_executed_def entry_instant_def)

lemma spent_by_recorded:
  assumes "triggered_action result player now = Inr action"
    and "get_prop result ''recommendedAction'' = Inr ra"
    and "Date_parse now = Some t"
  shows "spent_by (utc_day t) action = entry_value ra"
  using triggered_action_fixed [OF assms(1)] assms(3)
    triggered_action_copied [OF assms(1,2), of "''estimatedValueUSD''"]
  by (simp add: spent_by_def is_executed_def entry_instant_def entry_value_def)

section \<open>The safety rails\<close>

text \<open>
  The constraints reach the oracle inside its request and nowhere else: the handler
  compares nothing with them. What it records is decided by the oracle's answer alone.
\<close>

text \<open>
  Claim C1, as stated, fails. Under the default constraints the segment Churned is
  blacklisted; for a churned player whose analysis the oracle answers with an action, the
  handler records that action with status EXECUTED.
\<close>

theorem blacklisted_segment_executed:
  "segment churned_player \<in> set (blacklistedSegments (constraints initial_state))
   \<and> executedActions (snd (handleRunAIAnalysis (answering engage_text)
         ''2024-05-20T14:30:00.000Z'' churned_player initial_state))
       = [JObj [(''type'', JStr ''PUSH_NOTIFICATION''), (''description'', JStr ''Check in''),
                (''primaryReason'', JStr ''Win back''), (''playerId'', JStr ''p_0007''),
                (''playerName'', JStr ''Kim C.''),
                (''timestamp'', JStr ''2024-05-20T14:30:00.000Z''), (''confidence'', JNum 90),
                (''reasoning'', JStr ''Win back''), (''status'', JStr ''EXECUTED'')]]"
  by code_simp

text \<open>
  Claim C1, amended: the pipeline makes no segment check of its own. For a player whose
  segment is in \<open>blacklistedSegments\<close>, the action is recorded as executed exactly when the
  oracle's result is truthy, its \<^verbatim>\<open>actionNeeded\<close> is truthy and the action's reasoning can be
  read; otherwise the ledger is left as it was.
\<close>

theorem blacklisted_segment_left_to_oracle:
  assumes "segment player \<in> set (blacklistedSegments (constraints st))"
    and "analyzePlayerData ai player analysis_metrics (constraints st) = Inr result"
  shows "executedActions (snd (handleRunAIAnalysis ai now player st)) =
           (if action_needed result then
              (case triggered_action result player now of
                 Inl e \<Rightarrow> executedActions st
               | Inr action \<Rightarrow> action # executedActions st)
            else executedActions st)"
  using assms(2) ledger_recorded ledger_not_needed ledger_threw
  by (auto split: sum.splits)

text \<open>Claim C1, amended, on a churned player for whom the oracle recommends a gift.\<close>

theorem blacklisted_segment_left_to_oracle_witness:
  "segment churned_player \<in> set (blacklistedSegments (constraints initial_state))
   \<and> analyzePlayerData (answering gift30_text) churned_player analysis_metrics
         (constraints initial_state) = Inr gift30_result
   \<and> executedActions (snd (handleRunAIAnalysis (answering gift30_text)
         ''2024-05-20T14:30:00.000Z'' churned_player initial_state))
       = [gift30_entry churned_player]"
proof -
  have h1: "segment churned_player \<in> set (blacklistedSegments (constraints initial_state))"
    by code_simp
  have h2: "analyzePlayerData (answering gift30_text) churned_player analysis_metrics
              (constraints initial_state) = Inr gift30_result"
    by code_simp
  have h3: "(if action_needed gift30_result then
              (case triggered_action gift30_result churned_player ''2024-05-20T14:30:00.000Z'' of
                 Inl e \<Rightarrow> executedActions initial_state
               | Inr action \<Rightarrow> action # executedActions initial_state)
            else executedActions initial_state) = [gift30_entry churned_player]"
    by code_simp
  from blacklisted_segment_left_to_oracle
         [where ai = "answering gift30_text" and now = "''2024-05-20T14:30:00.000Z''",
          OF h1 h2] h3
  have "executedActions (snd (handleRunAIAnalysis (answering gift30_text)
          ''2024-05-20T14:30:00.000Z'' churned_player initial_state))
        = [gift30_entry churned_player]"
    by (rule trans)
  with h1 h2 show ?thesis by blast
qed

text \<open>
  Claim C2, as stated, fails. The default cap is one action per player per week; two
  evaluations of Alex one second apart, both answered with an action, leave two executed
  entries for Alex in the seven days that end at the second one.
\<close>

theorem frequency_cap_exceeded:
  "executed_in_week ''p_8921'' 1716215401000
     (executedActions (run_evaluations engage_alex_twice initial_state)) = 2
   \<and> maxActionsPerPlayerPerWeek (constraints initial_state) = 1
   \<and> Date_parse ''2024-05-20T14:30:01.000Z'' = Some 1716215401000"
  by code_simp

text \<open>
  Claim C2, amended: the pipeline applies no frequency cap. An evaluation whose oracle
  result reports an action needed, with a readable reasoning, adds one executed entry for
  its player however many that player already has: in every trailing seven-day window
  that holds the clock reading, the player's count of executed entries grows by one.
\<close>

theorem frequency_not_capped:
  assumes "analyzePlayerData ai player analysis_metrics (constraints st) = Inr result"
    and "action_needed result"
    and "triggered_action result player now = Inr action"
    and "Date_parse now = Some t"
    and "in_trailing_week T t"
  shows "executed_in_week (id' player) T
           (executedActions (snd (handleRunAIAnalysis ai now player st)))
         = Suc (executed_in_week (id' player) T (executedActions st))"
  using ledger_recorded [OF assms(1-3)] counts_for_recorded [OF assms(3,4)] assms(5)
  by (simp add: executed_in_week_def)

text \<open>Claim C2, amended, on a gift recommended for Alex.\<close>

theorem frequency_not_capped_witness:
  "analyzePlayerData (answering gift30_text) alex analysis_metrics (constraints initial_state)
     = Inr gift30_result
   \<and> action_needed gift30_result
   \<and> triggered_action gift30_result alex ''2024-05-20T14:30:00.000Z'' = Inr (gift30_entry alex)
   \<and> Date_parse ''2024-05-20T14:30:00.000Z'' = Some 1716215400000
   \<and> in_trailing_week 1716215400000 1716215400000
   \<and> executed_in_week (id' alex) 1716215400000
       (executedActions (snd (handleRunAIAnalysis (answering gift30_text)
          ''2024-05-20T14:30:00.000Z'' alex initial_state)))
     = Suc (executed_in_week (id' alex) 1716215400000 (executedActions initial_state))"
proof -
  have h1: "analyzePlayerData (answering gift30_text) alex analysis_metrics
              (constraints initial_state) = Inr gift30_result"
    by code_simp
  have h2: "action_needed gift30_result"
    by code_simp
  have h3: "triggered_action gift30_result alex ''2024-05-20T14:30:00.000Z''
            = Inr (gift30_entry alex)"
    by code_simp
  have h4: "Date_parse ''2024-05-20T14:30:00.000Z'' = Some 1716215400000"
    by code_simp
  have h5: "in_trailing_week 1716215400000 1716215400000"
    by code_simp
  from frequency_not_capped [where ai = "answering gift30_text", OF h1 h2 h3 h4 h5]
    h1 h2 h3 h4 h5
  show ?thesis by blast
qed

text \<open>
  Claim C3, as stated, fails. The default daily cap is 1000 USD; two evaluations on the
  same UTC day, each answered with a gift of 600 USD, leave executed entries worth 1200
  USD on that day.
\<close>

theorem daily_budget_exceeded:
  "spent_on_day 19863 (executedActions (run_evaluations gift600_alex_then_sam initial_state))
     = 1200
   \<and> budgetCapDaily (constraints initial_state) = 1000
   \<and> map_option utc_day (Date_parse ''2024-05-20T14:30:00.000Z'') = Some 19863
   \<and> map_option utc_day (Date_parse ''2024-05-20T14:30:01.000Z'') = Some 19863"
  by code_simp

text \<open>
  Claim C3, amended: the pipeline keeps no daily budget. An evaluation whose oracle
  result reports an action needed, with a readable reasoning, adds to the executed total
  of its UTC day the \<^verbatim>\<open>estimatedValueUSD\<close> that the oracle put on the recommended action,
  whatever the total already is.
\<close>

theorem daily_budget_not_capped:
  assumes "analyzePlayerData ai player analysis_metrics (constraints st) = Inr result"
    and "action_needed result"
    and "triggered_action result player now = Inr action"
    and "get_prop result ''recommendedAction'' = Inr ra"
    and "Date_parse now = Some t"
  shows "spent_on_day (utc_day t) (executedActions (snd (handleRunAIAnalysis ai now player st)))
         = spent_on_day (utc_day t) (executedActions st) + entry_value ra"
  using ledger_recorded [OF assms(1-3)] spent_by_recorded [OF assms(3-5)]
  by (simp add: spent_on_day_def)

text \<open>Claim C3, amended, on a gift recommended for Alex.\<close>

theorem daily_budget_not_capped_witness:
  "analyzePlayerData (answering gift30_text) alex analysis_metrics (constraints initial_state)
     = Inr gift30_result
   \<and> action_needed gift30_result
   \<and> triggered_action gift30_result alex ''2024-05-20T14:30:00.000Z'' = Inr (gift30_entry alex)
   \<and> get_prop gift30_result ''recommendedAction'' = Inr gift30_recommended
   \<and> Date_parse ''2024-05-20T14:30:00.000Z'' = Some 1716215400000
   \<and> entry_value gift30_recommended = 30
   \<and> spent_on_day (utc_day 1716215400000)
       (executedActions (snd (handleRunAIAnalysis (answering gift30_text)
          ''2024-05-20T14:30:00.000Z'' alex initial_state)))
     = spent_on_day (utc_day 1716215400000) (executedActions initial_state)
       + entry_value gift30_recommended"
proof -
  have h1: "analyzePlayerData (answering gift30_text) alex analysis_metrics
              (constraints initial_state) = Inr gift30_result"
    by code_simp
  have h2: "action_needed gift30_result"
    by code_simp
  have h3: "triggered_action gift30_result alex ''2024-05-20T14:30:00.000Z''
            = Inr (gift30_entry alex)"
    by code_simp
  have h4: "get_prop gift30_result ''recommendedAction'' = Inr gift30_recommended"
    by code_simp
  have h5: "Date_parse ''2024-05-20T14:30:00.000Z'' = Some 1716215400000"
    by code_simp
  have h6: "entry_value gift30_recommended = 30"
    by code_simp
  from daily_budget_not_capped [where ai = "answering gift30_text", OF h1 h2 h3 h4 h5]
    h1 h2 h3 h4 h5 h6
  show ?thesis by blast
qed

text \<open>
  Claim C4, as stated, fails. The default largest reward is 25 USD; a recommended gift of
  30 USD is recorded with status EXECUTED, not blocked.
\<close>

theorem reward_above_cap_executed:
  "maxRewardValueUSD (constraints initial_state) = 25
   \<and> executedActions (snd (handleRunAIAnalysis (answering gift30_text)
         ''2024-05-20T14:30:00.000Z'' alex initial_state))
       = [JObj [(''type'', JStr ''RESOURCE_GIFT''), (''primaryReason'', JStr ''Gift''),
                (''estimatedValueUSD'', JNum 30), (''playerId'', JStr ''p_8921''),
                (''playerName'', JStr ''Alex G.''),
                (''timestamp'', JStr ''2024-05-20T14:30:00.000Z''), (''confidence'', JNum 90),
                (''reasoning'', JStr ''Gift''), (''status'', JStr ''EXECUTED'')]]"
  by code_simp

text \<open>
  Claim C4, amended: the pipeline makes no value check and has no blocked verdict. A
  recommended action whose \<^verbatim>\<open>estimatedValueUSD\<close> strictly exceeds \<open>maxRewardValueUSD\<close> is
  recorded with status EXECUTED and with that value whenever the oracle's result reports
  an action needed, with a readable reasoning, regardless of remaining budget.
\<close>

theorem reward_value_not_checked:
  assumes "analyzePlayerData ai player analysis_metrics (constraints st) = Inr result"
    and "get_prop result ''recommendedAction'' = Inr ra"
    and "maxRewardValueUSD (constraints st) < entry_value ra"
    and "action_needed result"
    and "triggered_action result player now = Inr action"
  shows "executedActions (snd (handleRunAIAnalysis ai now player st)) = action # executedActions st
         \<and> is_executed action \<and> entry_value action = entry_value ra"
  using ledger_recorded [OF assms(1,4,5)] triggered_action_fixed(1) [OF assms(5)]
    triggered_action_copied [OF assms(5,2), of "''estimatedValueUSD''"]
  by (simp add: is_executed_def entry_value_def)

text \<open>Claim C4, amended, on a gift of 30 USD recommended for Alex.\<close>

theorem reward_value_not_checked_witness:
  "analyzePlayerData (answering gift30_text) alex analysis_metrics (constraints initial_state)
     = Inr gift30_result
   \<and> get_prop gift30_result ''recommendedAction'' = Inr gift30_recommended
   \<and> maxRewardValueUSD (constraints initial_state) < entry_value gift30_recommended
   \<and> action_needed gift30_result
   \<and> triggered_action gift30_result alex ''2024-05-20T14:30:00.000Z'' = Inr (gift30_entry alex)
   \<and> executedActions (snd (handleRunAIAnalysis (answering gift30_text)
         ''2024-05-20T14:30:00.000Z'' alex initial_state))
       = gift30_entry alex # executedActions initial_state
   \<and> is_executed (gift30_entry alex)
   \<and> entry_value (gift30_entry alex) = entry_value gift30_recommended"
proof -
  have h1: "analyzePlayerData (answering gift30_text) alex analysis_metrics
              (constraints initial_state) = Inr gift30_result"
    by code_simp
  have h2: "get_prop gift30_result ''recommendedAction'' = Inr gift30_recommended"
    by code_simp
  have h3: "maxRewardValueUSD (constraints initial_state) < entry_value gift30_recommended"
    by code_simp
  have h4: "action_needed gift30_result"
    by code_simp
  have h5: "triggered_action gift30_result alex ''2024-05-20T14:30:00.000Z''
            = Inr (gift30_entry alex)"
    by code_simp
  from reward_value_not_checked [where ai = "answering gift30_text", OF h1 h2 h3 h4 h5]
    h1 h2 h3 h4 h5
  show ?thesis by blast
qed

text \<open>
  Claim C5, as stated, fails. With \<open>complianceEnabled\<close> false, an evaluation that the
  oracle answers with silence records nothing, and one that it answers with an action
  records an entry that carries no \<^verbatim>\<open>bypassed\<close> property.
\<close>

theorem bypass_not_recorded:
  "\<not> complianceEnabled (constraints bypass_state)
   \<and> executedActions (snd (handleRunAIAnalysis (answering silent_text)
         ''2024-05-20T14:30:00.000Z'' alex bypass_state)) = []
   \<and> executedActions (snd (handleRunAIAnalysis (answering gift30_text)
         ''2024-05-20T14:30:00.000Z'' alex bypass_state))
       = [JObj [(''type'', JStr ''RESOURCE_GIFT''), (''primaryReason'', JStr ''Gift''),
                (''estimatedValueUSD'', JNum 30), (''playerId'', JStr ''p_8921''),
                (''playerName'', JStr ''Alex G.''),
                (''timestamp'', JStr ''2024-05-20T14:30:00.000Z''), (''confidence'', JNum 90),
                (''reasoning'', JStr ''Gift''), (''status'', JStr ''EXECUTED'')]]
   \<and> entry_prop (gift30_entry alex) ''bypassed'' = JUndefined"
  by code_simp

text \<open>
  Claim C5, amended: while \<open>complianceEnabled\<close> is false the pipeline does what it does
  while it is true. It records an executed entry when the oracle's result reports an
  action needed, with a readable reasoning, and nothing otherwise; the entry gets no tag
  for the bypass: its \<^verbatim>\<open>bypassed\<close> property is the one of the oracle's recommended action.
\<close>

theorem bypass_flag_not_read:
  assumes "\<not> complianceEnabled (constraints st)"
    and "analyzePlayerData ai player analysis_metrics (constraints st) = Inr result"
  shows "executedActions (snd (handleRunAIAnalysis ai now player st)) =
           (if action_needed result then
              (case triggered_action result player now of
                 Inl e \<Rightarrow> executedActions st
               | Inr action \<Rightarrow> action # executedActions st)
            else executedActions st)
         \<and> (\<forall>action ra. triggered_action result player now = Inr action
                \<and> get_prop result ''recommendedAction'' = Inr ra
              \<longrightarrow> is_executed action
                \<and> entry_prop action ''bypassed'' = entry_prop ra ''bypassed'')"
proof (intro conjI allI impI)
  show "executedActions (snd (handleRunAIAnalysis ai now player st)) =
           (if action_needed result then
              (case triggered_action result player now of
                 Inl e \<Rightarrow> executedActions st
               | Inr action \<Rightarrow> action # executedActions st)
            else executedActions st)"
    using assms(2) ledger_recorded ledger_not_needed ledger_threw
    by (auto split: sum.splits)
next
  fix action ra
  assume h: "triggered_action result player now = Inr action
             \<and> get_prop result ''recommendedAction'' = Inr ra"
  then show "is_executed action"
    using triggered_action_fixed(1) [of result player now action]
    by (simp add: is_executed_def)
  from h show "entry_prop action ''bypassed'' = entry_prop ra ''bypassed''"
    using triggered_action_copied [of result player now action ra "''bypassed''"] by simp
qed

text \<open>Claim C5, amended, on a gift recommended for Alex while the flag is off.\<close>

theorem bypass_flag_not_read_witness:
  "\<not> complianceEnabled (constraints bypass_state)
   \<and> analyzePlayerData (answering gift30_text) alex analysis_metrics (constraints bypass_state)
       = Inr gift30_result
   \<and> triggered_action gift30_result alex ''2024-05-20T14:30:00.000Z'' = Inr (gift30_entry alex)
   \<and> get_prop gift30_result ''recommendedAction'' = Inr gift30_recommended
   \<and> executedActions (snd (handleRunAIAnalysis (answering gift30_text)
         ''2024-05-20T14:30:00.000Z'' alex bypass_state))
       = [gift30_entry alex]
   \<and> is_executed (gift30_entry alex)
   \<and> entry_prop (gift30_entry alex) ''bypassed'' = entry_prop gift30_recommended ''bypassed''"
proof -
  have h1: "\<not> complianceEnabled (constraints bypass_state)"
    by code_simp
  have h2: "analyzePlayerData (answering gift30_text) alex analysis_metrics
              (constraints bypass_state) = Inr gift30_result"
    by code_simp
  have h3: "triggered_action gift30_result alex ''2024-05-20T14:30:00.000Z''
            = Inr (gift30_entry alex)"
    by code_simp
  have h4: "get_prop gift30_result ''recommendedAction'' = Inr gift30_recommended"
    by code_simp
  have h5: "(if action_needed gift30_result then
              (case triggered_action gift30_result alex ''2024-05-20T14:30:00.000Z'' of
                 Inl e \<Rightarrow> executedActions bypass_state
               | Inr action \<Rightarrow> action # executedActions bypass_state)
            else executedActions bypass_state) = [gift30_entry alex]"
    by code_simp
  note both = bypass_flag_not_read
         [where ai = "answering gift30_text" and now = "''2024-05-20T14:30:00.000Z''",
          OF h1 h2]
  from both [THEN conjunct1] h5
  have l: "executedActions (snd (handleRunAIAnalysis (answering gift30_text)
             ''2024-05-20T14:30:00.000Z'' alex bypass_state)) = [gift30_entry alex]"
    by (rule trans)
  from both [THEN conjunct2] h3 h4
  have "is_executed (gift30_entry alex)
        \<and> entry_prop (gift30_entry alex) ''bypassed'' = entry_prop gift30_recommended ''bypassed''"
    by blast
  with h1 h2 h3 h4 l show ?thesis by blast
qed

text \<open>
  Claim C6, as stated, fails. An evaluation that the oracle answers with silence appends
  no entry: the ledger is as empty after it as before.
\<close>

theorem silence_not_recorded:
  "executedActions initial_state = []
   \<and> executedActions (snd (handleRunAIAnalysis (answering silent_text)
         ''2024-05-20T14:30:00.000Z'' alex initial_state)) = []"
  by code_simp

text \<open>
  Claim C6, amended: an evaluation appends exactly one entry to the ledger when the
  oracle's result is truthy, its \<^verbatim>\<open>actionNeeded\<close> is truthy and the action's reasoning can be
  read; for every other outcome (the oracle's silence, a falsy or unparseable result, a
  rejected call, a thrown error) it appends none.
\<close>

theorem one_entry_per_executed_action:
  "length (executedActions (snd (handleRunAIAnalysis ai now player st))) =
     length (executedActions st) +
       (case analyzePlayerData ai player analysis_metrics (constraints st) of
          Inl e \<Rightarrow> 0
        | Inr result \<Rightarrow>
            if action_needed result then
              (case triggered_action result player now of Inl e \<Rightarrow> 0 | Inr action \<Rightarrow> 1)
            else 0)"
  using ledger_recorded [of ai player st _ now] ledger_not_needed [of ai player st _ now]
    ledger_threw [of ai player st _ now] ledger_rejected [of ai player st _ now]
  by (auto split: sum.splits)

section \<open>The constraints\<close>



section \<open>The order of the ledger\<close>








section \<open>Parse failures of the oracle's answer\<close>

text \<open>
  Claim C9, as stated, fails for the empty text. The empty string is not JSON, but
  \<^verbatim>\<open>response.text || "{}"\<close> replaces it by \<^verbatim>\<open>"{}"\<close> before parsing: \<open>analyzePlayerData\<close>
  returns the empty object, not null, and the handler puts an analysis on display.
\<close>

theorem empty_text_is_analysed:
  "JSON_parse '''' = None
   \<and> analyzePlayerData (answering '''') alex analysis_metrics (constraints initial_state)
       = Inr (JObj [])
   \<and> currentAnalysis (snd (handleRunAIAnalysis (answering '''') ''2024-05-20T14:30:00.000Z''
         alex initial_state))
       = JObj [(''player'', Player_js alex)]"
  by code_simp

text \<open>
  Claim C9, amended: when the oracle's response has a non-empty text that is not
  parseable JSON, \<open>analyzePlayerData\<close> returns null rather than throwing, and the
  evaluation triggers no action, appends nothing to the executed actions and leaves no
  analysis on display: the state is the one before, with the analysis cleared and no
  player under analysis.
\<close>

theorem unparseable_text_is_null:
  assumes "ai (AnalyzeRequest player analysis_metrics (constraints st)) = Response (Some t)"
    and "t \<noteq> []"
    and "JSON_parse t = None"
  shows "analyzePlayerData ai player analysis_metrics (constraints st) = Inr JNull
         \<and> handleRunAIAnalysis ai now player st
             = (None, st\<lparr>analyzingPlayerId := None, currentAnalysis := JNull\<rparr>)"
  using assms by (simp add: analyzePlayerData_def handleRunAIAnalysis_def)

text \<open>Claim C9, amended, on a truncated answer for Alex.\<close>

theorem unparseable_text_is_null_witness:
  "answering truncated_text (AnalyzeRequest alex analysis_metrics (constraints initial_state))
     = Response (Some truncated_text)
   \<and> truncated_text \<noteq> []
   \<and> JSON_parse truncated_text = None
   \<and> analyzePlayerData (answering truncated_text) alex analysis_metrics
         (constraints initial_state) = Inr JNull
   \<and> handleRunAIAnalysis (answering truncated_text) ''2024-05-20T14:30:00.000Z'' alex
         initial_state
       = (None, initial_state\<lparr>analyzingPlayerId := None, currentAnalysis := JNull\<rparr>)"
proof -
  have h1: "answering truncated_text
              (AnalyzeRequest alex analysis_metrics (constraints initial_state))
            = Response (Some truncated_text)"
    by (simp add: answering_def)
  have h2: "truncated_text \<noteq> []"
    by (simp add: truncated_text_def)
  have h3: "JSON_parse truncated_text = None"
    by code_simp
  from unparseable_text_is_null
         [of "answering truncated_text" alex initial_state truncated_text
             "''2024-05-20T14:30:00.000Z''", OF h1 h2 h3] h1 h2 h3
  show ?thesis
    by blast
qed

text \<open>
  Claim C10, as stated, fails for the empty text: it is not JSON, yet \<open>normalizeRawData\<close>
  parses \<^verbatim>\<open>"{}"\<close> in its place and returns the empty object, without the raw input.
\<close>

theorem empty_text_is_normalized:
  "JSON_parse '''' = None
   \<and> normalizeRawData (answering '''') ''UID:5543|SESS:44|LVL:28|BAL:450|TS:2024-05-20T11:00:00''
       = Inr (JObj [])"
  by code_simp

text \<open>
  Claim C10, amended: for every input string, when the model's response has a non-empty
  text that is not parseable JSON, \<open>normalizeRawData\<close> does not throw and returns the
  object with \<^verbatim>\<open>error\<close> "Failed to normalize" and \<^verbatim>\<open>raw\<close> the input string, unchanged.
\<close>

theorem unparseable_text_returns_raw:
  assumes "ai (NormalizeRequest rawData) = Response (Some t)"
    and "t \<noteq> []"
    and "JSON_parse t = None"
  shows "normalizeRawData ai rawData
           = Inr (JObj [(''error'', JStr ''Failed to normalize''), (''raw'', JStr rawData)])"
  using assms by (simp add: normalizeRawData_def)

text \<open>Claim C10, amended, on a truncated answer to a backend sample.\<close>

theorem unparseable_text_returns_raw_witness:
  "answering truncated_text (NormalizeRequest ''UID:5543|SESS:44'')
     = Response (Some truncated_text)
   \<and> truncated_text \<noteq> []
   \<and> JSON_parse truncated_text = None
   \<and> normalizeRawData (answering truncated_text) ''UID:5543|SESS:44''
       = Inr (JObj [(''error'', JStr ''Failed to normalize''),
                    (''raw'', JStr ''UID:5543|SESS:44'')])"
proof -
  have h1: "answering truncated_text (NormalizeRequest ''UID:5543|SESS:44'')
            = Response (Some truncated_text)"
    by (simp add: answering_def)
  have h2: "truncated_text \<noteq> []"
    by (simp add: truncated_text_def)
  have h3: "JSON_parse truncated_text = None"
    by code_simp
  from unparseable_text_returns_raw
         [of "answering truncated_text" "''UID:5543|SESS:44''" truncated_text, OF h1 h2 h3]
       h1 h2 h3
  show ?thesis
    by blast
qed

end
